theory Spec2Isabelle
  imports Complex_Main "HOL-Library.Multiset"
begin

section \<open>Data model\<close>

text \<open>
  The backend is an Express server with two collaborators: a PostgreSQL store and a Redis
  cache. The tables are the ones of the schema (\<^verbatim>\<open>init.sql\<close> and \<^verbatim>\<open>initDB\<close>), a row is a
  record, a table is the list of its rows in insertion order.

  Amounts of type \<^verbatim>\<open>DECIMAL(10, 2)\<close> are counted in cents, so that \<open>29.99\<close> is \<open>2999\<close>. The
  store hands such a column to the handler as a decimal text; the handler multiplies and
  adds JavaScript numbers, which are IEEE doubles, and sends the number back as text. The
  section on numbers models that arithmetic.

  A request is handled from its first command to its answer without another request in
  between, and the clock stands still meanwhile. A statement of the store fails for the
  reasons the schema gives (a type, a \<^verbatim>\<open>NOT NULL\<close>, a key); a lost connection to the store is
  not modelled. A command of the cache may be rejected at any time.
\<close>

type_synonym money = int

section \<open>JavaScript numbers and the decimal column\<close>

text \<open>
  A finite double is represented by its exact value, a rational. \<open>round_53\<close> is the
  rounding of IEEE 754 to the nearest number with a significand of 53 bits, ties to the even
  significand. The exponent range is not modelled: with quantities within \<^verbatim>\<open>INTEGER\<close> and
  prices within \<^verbatim>\<open>DECIMAL(10, 2)\<close> a running total reaches the largest double only after
  more than \<open>10\<^sup>2\<^sup>9\<^sup>0\<close> lines, and it is never small enough to be subnormal; so there is no
  infinity and no \<^verbatim>\<open>NaN\<close> here, and the zero has no sign.
\<close>

type_synonym jsnum = rat

text \<open>The number of digits of \<open>n\<close> in base \<open>b\<close>, and \<open>b\<close> to an integer power.\<close>

function digits :: "int \<Rightarrow> int \<Rightarrow> int" where
  "digits b n = (if n \<le> 0 \<or> b < 2 then 0 else digits b (n div b) + 1)"
  by pat_completeness auto
termination
proof (relation "measure (\<lambda>(b, n). nat n)")
  show "wf (measure (\<lambda>(b, n). nat n))" by simp
next
  fix b n :: int
  assume "\<not> (n \<le> 0 \<or> b < 2)"
  then have "n div b < n" and "0 < n" by (simp_all add: int_div_less_self)
  then show "((b, n div b), (b, n)) \<in> measure (\<lambda>(b, n). nat n)" by simp
qed

definition pw :: "int \<Rightarrow> int \<Rightarrow> rat" where
  "pw b e = (if 0 \<le> e then of_int b ^ nat e else 1 / of_int b ^ nat (- e))"

text \<open>The exponent \<open>e\<close> of a positive \<open>x\<close> in base \<open>b\<close>: \<open>b\<^sup>e \<le> x < b\<^sup>e\<^sup>+\<^sup>1\<close>.\<close>

definition exponent :: "int \<Rightarrow> rat \<Rightarrow> int" where
  "exponent b x =
     (case quotient_of x of
        (a, d) \<Rightarrow>
          (let k = digits b a - digits b d
           in if pw b k \<le> x then k else k - 1))"

definition round_even :: "rat \<Rightarrow> int" where
  "round_even y =
     (let f = floor y; d = y - of_int f
      in if d < 1 / 2 then f else if 1 / 2 < d then f + 1 else if even f then f else f + 1)"

definition round_53 :: "rat \<Rightarrow> jsnum" where
  "round_53 x =
     (if x = 0 then 0
      else (let u = pw 2 (exponent 2 \<bar>x\<bar> - 52) in of_int (round_even (x / u)) * u))"

text \<open>
  The number a decimal text of the store denotes (\<^verbatim>\<open>price\<close> arrives as \<^verbatim>\<open>"29.99"\<close> and
  the multiplication converts it), the number of an integer of the request body, and the
  operators \<^verbatim>\<open>*\<close> and \<^verbatim>\<open>+\<close>.
\<close>

definition js_number :: "money \<Rightarrow> jsnum" where
  "js_number c = round_53 (of_int c / 100)"

definition js_integer :: "int \<Rightarrow> jsnum" where
  "js_integer q = round_53 (of_int q)"

definition js_times :: "jsnum \<Rightarrow> jsnum \<Rightarrow> jsnum" where
  "js_times a b = round_53 (a * b)"

definition js_plus :: "jsnum \<Rightarrow> jsnum \<Rightarrow> jsnum" where
  "js_plus a b = round_53 (a + b)"

text \<open>
  \<^verbatim>\<open>Number.prototype.toString\<close>, by which the client of the store and \<^verbatim>\<open>JSON.stringify\<close> write a
  number: the decimal with the fewest digits that denotes the number, the closest one to it
  if there are several, the one with the even last digit on a tie. Seventeen digits
  always suffice. The result is given as the value of the decimal.
\<close>

definition candidate :: "rat \<Rightarrow> nat \<Rightarrow> rat option" where
  "candidate v k =
     (let scale = pw 10 (exponent 10 v + 1 - int k);
          s = floor (v / scale);
          lo = of_int s * scale;
          hi = of_int (s + 1) * scale;
          lo_ok = (round_53 lo = v);
          hi_ok = (round_53 hi = v)
      in if lo_ok \<and> hi_ok
         then (if v - lo < hi - v then Some lo
               else if hi - v < v - lo then Some hi
               else if even s then Some lo else Some hi)
         else if lo_ok then Some lo
         else if hi_ok then Some hi
         else None)"

fun shortest :: "rat \<Rightarrow> nat list \<Rightarrow> rat" where
  "shortest v [] = v"
| "shortest v (k # ks) = (case candidate v k of Some c \<Rightarrow> c | None \<Rightarrow> shortest v ks)"

definition js_toString :: "jsnum \<Rightarrow> rat" where
  "js_toString v =
     (if v = 0 then 0
      else if 0 < v then shortest v [1 ..< 18]
      else - shortest (- v) [1 ..< 18])"

text \<open>
  What a column \<^verbatim>\<open>DECIMAL(10, 2)\<close> makes of a number sent as its text: the store rounds the
  decimal to two places, half away from zero, and rejects a value of \<open>10\<^sup>8\<close> or more.
\<close>

definition round_half_away :: "rat \<Rightarrow> int" where
  "round_half_away y = (if 0 \<le> y then floor (y + 1 / 2) else - floor (- y + 1 / 2))"

definition decimal_10_2_ok :: "money \<Rightarrow> bool" where
  "decimal_10_2_ok c = (- 10000000000 < c \<and> c < 10000000000)"

definition pg_numeric_10_2 :: "jsnum \<Rightarrow> money option" where
  "pg_numeric_10_2 v =
     (let c = round_half_away (js_toString v * 100)
      in if decimal_10_2_ok c then Some c else None)"

section \<open>Tables, events and requests\<close>

record product =
  p_id :: int
  p_name :: string
  p_description :: "string option"
  p_price :: money
  p_stock :: int
  p_image_url :: "string option"
  p_created_at :: nat

record order_row =
  o_id :: int
  o_user_id :: "int option"
  o_status :: string
  o_total :: money
  o_created_at :: nat

record order_item_row =
  oi_id :: int
  oi_order_id :: int
  oi_product_id :: "int option"
  oi_quantity :: int
  oi_price :: money

record tables =
  products :: "product list"
  users :: "int list"
  orders :: "order_row list"
  order_items :: "order_item_row list"

text \<open>
  Two schemas create the \<^verbatim>\<open>orders\<close> table, both with \<^verbatim>\<open>CREATE TABLE IF NOT EXISTS\<close>, so the
  one that runs first stays. \<^verbatim>\<open>init.sql\<close> declares \<^verbatim>\<open>user_id INTEGER REFERENCES users(id)\<close>,
  \<^verbatim>\<open>initDB\<close> declares \<^verbatim>\<open>user_id INTEGER NOT NULL\<close>.
\<close>

datatype orders_schema = InitSql | InitDB

text \<open>
  The cache holds serialized listings. \<^verbatim>\<open>JSON.stringify\<close> of the rows is a text that
  \<^verbatim>\<open>JSON.parse\<close> reads back to the same JSON value, and \<^verbatim>\<open>res.json\<close> sends that value as the
  same text again; the text is represented by the rows it encodes. Such a text is never the
  empty string, so \<^verbatim>\<open>if (cached)\<close> tests exactly whether the key was found.
\<close>

datatype payload = JSON_text "product list"

fun JSON_stringify :: "product list \<Rightarrow> payload" where
  "JSON_stringify rows = JSON_text rows"

fun JSON_parse :: "payload \<Rightarrow> product list" where
  "JSON_parse (JSON_text rows) = rows"

text \<open>Every command sent to the store or to the cache is recorded, in order.\<close>

datatype event =
    PgBegin
  | PgInsertOrder
  | PgSelectPrice "int option"
  | PgInsertOrderItem
  | PgUpdateTotal
  | PgCommit
  | PgRollback
  | PgSelectProducts
  | RedisGet string
  | RedisSetEx string nat payload
  | RedisDel string

datatype error = TypeError | PgError string | RedisError

text \<open>
  The state of the two collaborators. \<open>db\<close> is the committed content of the store and
  \<open>tx\<close> the working copy of the open transaction, if any. The two sequences behind the
  \<^verbatim>\<open>SERIAL\<close> keys are outside the transaction: a rollback does not reset them. A cache entry
  is a value with the time at which it expires. \<open>redis_faults\<close> tells which of the coming
  cache commands are rejected (\<open>True\<close>: the promise rejects); the empty list means that all
  succeed.
\<close>

record world =
  schema :: orders_schema
  db :: tables
  tx :: "tables option"
  orders_id_seq :: int
  order_items_id_seq :: int
  redis :: "string \<Rightarrow> (payload \<times> nat) option"
  redis_faults :: "bool list"
  now :: nat
  trace :: "event list"

datatype body =
    Products "product list"
  | OrderCreated int jsnum
  | Error string

record response =
  status :: nat
  body :: body

text \<open>
  The body of \<^verbatim>\<open>POST /api/orders\<close>: \<^verbatim>\<open>{ user_id, items: [{ product_id, quantity }] }\<close>. A field
  that the request leaves out is \<open>None\<close> (\<^verbatim>\<open>undefined\<close> in the handler).
\<close>

record line =
  product_id :: "int option"
  quantity :: "int option"

record order_request =
  user_id :: "int option"
  items :: "line list option"

section \<open>The cache client\<close>

fun next_fault :: "bool list \<Rightarrow> bool" where
  "next_fault [] = False"
| "next_fault (f # fs) = f"

definition redis_step :: "event \<Rightarrow> world \<Rightarrow> world" where
  "redis_step e w = w\<lparr>redis_faults := drop 1 (redis_faults w), trace := trace w @ [e]\<rparr>"

definition redis_lookup :: "world \<Rightarrow> string \<Rightarrow> payload option" where
  "redis_lookup w k =
     (case redis w k of
        None \<Rightarrow> None
      | Some (v, expires) \<Rightarrow> if now w < expires then Some v else None)"

definition redis_get :: "string \<Rightarrow> world \<Rightarrow> (error + payload option) \<times> world" where
  "redis_get k w =
     (if next_fault (redis_faults w) then (Inl RedisError, redis_step (RedisGet k) w)
      else (Inr (redis_lookup w k), redis_step (RedisGet k) w))"

definition redis_setEx :: "string \<Rightarrow> nat \<Rightarrow> payload \<Rightarrow> world \<Rightarrow> (error + unit) \<times> world" where
  "redis_setEx k ttl v w =
     (if next_fault (redis_faults w) then (Inl RedisError, redis_step (RedisSetEx k ttl v) w)
      else (Inr (), (redis_step (RedisSetEx k ttl v) w)\<lparr>redis := (redis w)(k \<mapsto> (v, now w + ttl))\<rparr>))"

definition redis_del :: "string \<Rightarrow> world \<Rightarrow> (error + unit) \<times> world" where
  "redis_del k w =
     (if next_fault (redis_faults w) then (Inl RedisError, redis_step (RedisDel k) w)
      else (Inr (), (redis_step (RedisDel k) w)\<lparr>redis := (redis w)(k := None)\<rparr>))"

section \<open>The store client\<close>

text \<open>
  A statement runs on the working copy of the open transaction, or on the committed
  tables when no transaction is open.
\<close>

definition cur :: "world \<Rightarrow> tables" where
  "cur w = (case tx w of Some t \<Rightarrow> t | None \<Rightarrow> db w)"

definition put :: "tables \<Rightarrow> world \<Rightarrow> world" where
  "put t w = (case tx w of Some _ \<Rightarrow> w\<lparr>tx := Some t\<rparr> | None \<Rightarrow> w\<lparr>db := t\<rparr>)"

definition logged :: "event \<Rightarrow> world \<Rightarrow> world" where
  "logged e w = w\<lparr>trace := trace w @ [e]\<rparr>"

text \<open>
  The range of the column type \<^verbatim>\<open>INTEGER\<close>. An integer of the request within this range is
  a double without rounding, and the text the client sends for it is the integer.
\<close>

definition int4_ok :: "int \<Rightarrow> bool" where
  "int4_ok n = (- 2147483648 \<le> n \<and> n \<le> 2147483647)"

text \<open>\<^verbatim>\<open>pool.connect()\<close> hands out a client that has no transaction open.\<close>

definition pool_connect :: "world \<Rightarrow> world" where
  "pool_connect w = w\<lparr>tx := None\<rparr>"

definition pg_begin :: "world \<Rightarrow> world" where
  "pg_begin w =
     (case tx w of
        None \<Rightarrow> (logged PgBegin w)\<lparr>tx := Some (db w)\<rparr>
      | Some _ \<Rightarrow> logged PgBegin w)"

definition pg_commit :: "world \<Rightarrow> world" where
  "pg_commit w =
     (case tx w of
        None \<Rightarrow> logged PgCommit w
      | Some t \<Rightarrow> (logged PgCommit w)\<lparr>db := t, tx := None\<rparr>)"

definition pg_rollback :: "world \<Rightarrow> world" where
  "pg_rollback w = (logged PgRollback w)\<lparr>tx := None\<rparr>"

text \<open>
  \<^verbatim>\<open>INSERT INTO orders (user_id, status, total) VALUES ($1, $2, $3) RETURNING *\<close>.
  The value of \<^verbatim>\<open>user_id\<close> has to be an \<^verbatim>\<open>INTEGER\<close> and to satisfy the constraint of the
  column; the key comes from the sequence of \<^verbatim>\<open>id SERIAL PRIMARY KEY\<close>, which has advanced
  when a constraint rejects the row.
\<close>

definition user_id_ok :: "orders_schema \<Rightarrow> tables \<Rightarrow> int option \<Rightarrow> bool" where
  "user_id_ok sch t uid =
     (case uid of
        None \<Rightarrow> sch = InitSql
      | Some u \<Rightarrow> int4_ok u \<and> (sch = InitDB \<or> u \<in> set (users t)))"

definition pg_insert_order :: "int option \<Rightarrow> string \<Rightarrow> money \<Rightarrow> world \<Rightarrow> (error + int) \<times> world" where
  "pg_insert_order uid st tot w =
     (let w1 = logged PgInsertOrder w;
          new_id = orders_id_seq w + 1
      in if \<not> (case uid of None \<Rightarrow> True | Some u \<Rightarrow> int4_ok u)
         then (Inl (PgError ''integer out of range''), w1)
         else if \<not> user_id_ok (schema w) (cur w) uid
         then (Inl (PgError ''constraint violation on orders.user_id''),
               w1\<lparr>orders_id_seq := new_id\<rparr>)
         else if new_id \<in> set (map o_id (orders (cur w)))
         then (Inl (PgError ''duplicate key in orders''), w1\<lparr>orders_id_seq := new_id\<rparr>)
         else (Inr new_id,
               put ((cur w)\<lparr>orders := orders (cur w) @
                      [\<lparr>o_id = new_id, o_user_id = uid, o_status = st, o_total = tot,
                        o_created_at = now w\<rparr>]\<rparr>)
                   (w1\<lparr>orders_id_seq := new_id\<rparr>)))"

text \<open>\<^verbatim>\<open>SELECT price FROM products WHERE id = $1\<close>: the prices of the matching rows.\<close>

definition pg_select_price :: "int option \<Rightarrow> world \<Rightarrow> (error + money list) \<times> world" where
  "pg_select_price pid w =
     (let w1 = logged (PgSelectPrice pid) w
      in case pid of
           None \<Rightarrow> (Inr [], w1)
         | Some i \<Rightarrow>
             if \<not> int4_ok i then (Inl (PgError ''integer out of range''), w1)
             else (Inr (map p_price (filter (\<lambda>p. p_id p = i) (products (cur w)))), w1))"

text \<open>
  \<^verbatim>\<open>INSERT INTO order_items (order_id, product_id, quantity, price) VALUES ($1, $2, $3, $4)\<close>.
  \<^verbatim>\<open>quantity\<close> is \<^verbatim>\<open>INTEGER NOT NULL\<close> and \<^verbatim>\<open>id\<close> is \<^verbatim>\<open>SERIAL PRIMARY KEY\<close>. The handler
  reaches this statement only after it has inserted the order and read the price of the
  product, so the two foreign keys hold.
\<close>

definition pg_insert_order_item ::
  "int \<Rightarrow> int option \<Rightarrow> int option \<Rightarrow> money \<Rightarrow> world \<Rightarrow> (error + unit) \<times> world" where
  "pg_insert_order_item oid pid qty price w =
     (let w1 = logged PgInsertOrderItem w;
          new_id = order_items_id_seq w + 1
      in case qty of
           None \<Rightarrow> (Inl (PgError ''null value in column quantity''),
                     w1\<lparr>order_items_id_seq := new_id\<rparr>)
         | Some q \<Rightarrow>
             if \<not> int4_ok q then (Inl (PgError ''integer out of range''), w1)
             else if new_id \<in> set (map oi_id (order_items (cur w)))
             then (Inl (PgError ''duplicate key in order_items''),
                   w1\<lparr>order_items_id_seq := new_id\<rparr>)
             else (Inr (),
                   put ((cur w)\<lparr>order_items := order_items (cur w) @
                          [\<lparr>oi_id = new_id, oi_order_id = oid, oi_product_id = pid,
                            oi_quantity = q, oi_price = price\<rparr>]\<rparr>)
                       (w1\<lparr>order_items_id_seq := new_id\<rparr>)))"

text \<open>
  \<^verbatim>\<open>UPDATE orders SET total = $1 WHERE id = $2\<close>; \<^verbatim>\<open>total\<close> is \<^verbatim>\<open>DECIMAL(10, 2)\<close> and the
  parameter is the handler's number.
\<close>

definition pg_update_total :: "jsnum \<Rightarrow> int \<Rightarrow> world \<Rightarrow> (error + unit) \<times> world" where
  "pg_update_total tot oid w =
     (let w1 = logged PgUpdateTotal w
      in case pg_numeric_10_2 tot of
           None \<Rightarrow> (Inl (PgError ''numeric field overflow''), w1)
         | Some c \<Rightarrow>
             (Inr (),
              put ((cur w)\<lparr>orders :=
                     map (\<lambda>r. if o_id r = oid then r\<lparr>o_total := c\<rparr> else r) (orders (cur w))\<rparr>)
                  w1))"

text \<open>
  \<^verbatim>\<open>SELECT ... FROM products WHERE stock > 0 ORDER BY created_at DESC\<close>, sent through the
  pool and not through the client of a transaction: it reads the committed tables. SQL leaves
  the order of rows with the same creation time open; here they keep the order of the table.
\<close>

fun insert_desc :: "product \<Rightarrow> product list \<Rightarrow> product list" where
  "insert_desc x [] = [x]"
| "insert_desc x (y # ys) =
     (if p_created_at y \<le> p_created_at x then x # y # ys else y # insert_desc x ys)"

definition order_by_created_at_desc :: "product list \<Rightarrow> product list" where
  "order_by_created_at_desc rows = foldr insert_desc rows []"

definition select_products :: "tables \<Rightarrow> product list" where
  "select_products t = order_by_created_at_desc (filter (\<lambda>p. 0 < p_stock p) (products t))"

definition pg_select_products :: "world \<Rightarrow> product list \<times> world" where
  "pg_select_products w = (select_products (db w), logged PgSelectProducts w)"

section \<open>The handlers\<close>

text \<open>
  \<^verbatim>\<open>GET /api/products\<close>. Every cache command is awaited inside the \<^verbatim>\<open>try\<close> block, so a
  rejected one ends in the \<^verbatim>\<open>catch\<close>, which answers 500.
\<close>

definition get_products :: "world \<Rightarrow> response \<times> world" where
  "get_products w =
     (case redis_get ''products'' w of
        (Inl e, w1) \<Rightarrow> (\<lparr>status = 500, body = Error ''Internal server error''\<rparr>, w1)
      | (Inr (Some cached), w1) \<Rightarrow> (\<lparr>status = 200, body = Products (JSON_parse cached)\<rparr>, w1)
      | (Inr None, w1) \<Rightarrow>
          (case pg_select_products w1 of
             (rows, w2) \<Rightarrow>
               (case redis_setEx ''products'' 300 (JSON_stringify rows) w2 of
                  (Inl e, w3) \<Rightarrow> (\<lparr>status = 500, body = Error ''Internal server error''\<rparr>, w3)
                | (Inr _, w3) \<Rightarrow> (\<lparr>status = 200, body = Products rows\<rparr>, w3))))"

text \<open>
  The loop of \<^verbatim>\<open>POST /api/orders\<close> over the items. \<^verbatim>\<open>product.rows[0].price\<close> throws a
  TypeError when the query found no row. \<^verbatim>\<open>total += price * item.quantity\<close> works on
  doubles: the text of the price becomes a number, the product is rounded, the sum is rounded.
  When the quantity is missing, the product is \<^verbatim>\<open>NaN\<close>, and the insert that follows is
  rejected, so that no later statement sees the \<^verbatim>\<open>NaN\<close>: the running total is left as it is
  there.
\<close>

fun add_items :: "int \<Rightarrow> line list \<Rightarrow> jsnum \<Rightarrow> world \<Rightarrow> (error + jsnum) \<times> world" where
  "add_items orderId [] tot w = (Inr tot, w)"
| "add_items orderId (item # rest) tot w =
     (case pg_select_price (product_id item) w of
        (Inl e, w1) \<Rightarrow> (Inl e, w1)
      | (Inr [], w1) \<Rightarrow> (Inl TypeError, w1)
      | (Inr (price # _), w1) \<Rightarrow>
          (let tot1 = (case quantity item of
                         None \<Rightarrow> tot
                       | Some q \<Rightarrow> js_plus tot (js_times (js_number price) (js_integer q)))
           in case pg_insert_order_item orderId (product_id item) (quantity item) price w1 of
                (Inl e, w2) \<Rightarrow> (Inl e, w2)
              | (Inr _, w2) \<Rightarrow> add_items orderId rest tot1 w2))"

text \<open>
  The \<^verbatim>\<open>try\<close> block of \<^verbatim>\<open>POST /api/orders\<close>, up to the first exception. \<^verbatim>\<open>for (const item of
  items)\<close> throws a TypeError when \<^verbatim>\<open>items\<close> is undefined.
\<close>

definition create_order_try :: "order_request \<Rightarrow> world \<Rightarrow> (error + response) \<times> world" where
  "create_order_try req w =
     (case pg_insert_order (user_id req) ''pending'' 0 (pg_begin w) of
        (Inl e, w2) \<Rightarrow> (Inl e, w2)
      | (Inr orderId, w2) \<Rightarrow>
          (case items req of
             None \<Rightarrow> (Inl TypeError, w2)
           | Some its \<Rightarrow>
               (case add_items orderId its 0 w2 of
                  (Inl e, w3) \<Rightarrow> (Inl e, w3)
                | (Inr tot, w3) \<Rightarrow>
                    (case pg_update_total tot orderId w3 of
                       (Inl e, w4) \<Rightarrow> (Inl e, w4)
                     | (Inr _, w4) \<Rightarrow>
                         (case redis_del ''products'' (pg_commit w4) of
                            (Inl e, w6) \<Rightarrow> (Inl e, w6)
                          | (Inr _, w6) \<Rightarrow>
                              (Inr \<lparr>status = 201, body = OrderCreated orderId tot\<rparr>, w6))))))"

text \<open>The \<^verbatim>\<open>catch\<close> block rolls back and answers 500, whatever was thrown.\<close>

definition create_order :: "order_request \<Rightarrow> world \<Rightarrow> response \<times> world" where
  "create_order req w =
     (case create_order_try req (pool_connect w) of
        (Inr res, w1) \<Rightarrow> (res, w1)
      | (Inl e, w1) \<Rightarrow> (\<lparr>status = 500, body = Error ''Failed to create order''\<rparr>, pg_rollback w1))"

section \<open>What the specification expects\<close>

text \<open>
  The specification's words, to compare the handlers with: the current unit price of a
  product, the total \<open>\<Sum> price \<times> quantity\<close> of a list of lines in exact cents, and the rows an
  order is to leave in the tables.
\<close>

definition price_of :: "product list \<Rightarrow> int \<Rightarrow> money option" where
  "price_of ps i =
     (case filter (\<lambda>p. p_id p = i) ps of [] \<Rightarrow> None | p # _ \<Rightarrow> Some (p_price p))"

definition line_amount :: "product list \<Rightarrow> line \<Rightarrow> money" where
  "line_amount ps l =
     (case (product_id l, quantity l) of
        (Some i, Some q) \<Rightarrow> (case price_of ps i of Some pr \<Rightarrow> pr * q | None \<Rightarrow> 0)
      | _ \<Rightarrow> 0)"

definition spec_total :: "product list \<Rightarrow> line list \<Rightarrow> money" where
  "spec_total ps ls = sum_list (map (line_amount ps) ls)"

text \<open>
  The same total in the arithmetic of the handler: the products \<^verbatim>\<open>price * quantity\<close> added
  to 0 from the first line to the last, and what the column \<^verbatim>\<open>orders.total\<close> keeps of it.
\<close>

definition js_line :: "product list \<Rightarrow> line \<Rightarrow> jsnum" where
  "js_line ps l =
     (case (product_id l, quantity l) of
        (Some i, Some q) \<Rightarrow>
          (case price_of ps i of
             Some pr \<Rightarrow> js_times (js_number pr) (js_integer q)
           | None \<Rightarrow> 0)
      | _ \<Rightarrow> 0)"

definition js_sum :: "jsnum \<Rightarrow> product list \<Rightarrow> line list \<Rightarrow> jsnum" where
  "js_sum t ps ls = foldl (\<lambda>t l. js_plus t (js_line ps l)) t ls"

definition js_total :: "product list \<Rightarrow> line list \<Rightarrow> jsnum" where
  "js_total ps ls = js_sum 0 ps ls"

definition stored_total :: "product list \<Rightarrow> line list \<Rightarrow> money" where
  "stored_total ps ls = (case pg_numeric_10_2 (js_total ps ls) of Some c \<Rightarrow> c | None \<Rightarrow> 0)"

fun spec_item_rows :: "product list \<Rightarrow> int \<Rightarrow> int \<Rightarrow> line list \<Rightarrow> order_item_row list" where
  "spec_item_rows ps oid s [] = []"
| "spec_item_rows ps oid s (l # ls) =
     \<lparr>oi_id = s + 1, oi_order_id = oid, oi_product_id = product_id l,
      oi_quantity = (case quantity l of Some q \<Rightarrow> q | None \<Rightarrow> 0),
      oi_price = (case product_id l of
                    Some i \<Rightarrow> (case price_of ps i of Some pr \<Rightarrow> pr | None \<Rightarrow> 0)
                  | None \<Rightarrow> 0)\<rparr>
     # spec_item_rows ps oid (s + 1) ls"

definition spec_order_row :: "world \<Rightarrow> order_request \<Rightarrow> money \<Rightarrow> order_row" where
  "spec_order_row w req tot =
     \<lparr>o_id = orders_id_seq w + 1, o_user_id = user_id req, o_status = ''pending'',
      o_total = tot, o_created_at = now w\<rparr>"

definition spec_tables :: "world \<Rightarrow> order_request \<Rightarrow> line list \<Rightarrow> tables" where
  "spec_tables w req ls =
     (db w)\<lparr>orders := orders (db w) @
               [spec_order_row w req (stored_total (products (db w)) ls)],
            order_items := order_items (db w) @
               spec_item_rows (products (db w)) (orders_id_seq w + 1) (order_items_id_seq w) ls\<rparr>"

text \<open>
  A line the store accepts: it names a product of the catalogue and carries a quantity,
  both within \<^verbatim>\<open>INTEGER\<close>.
\<close>

definition valid_line :: "product list \<Rightarrow> line \<Rightarrow> bool" where
  "valid_line ps l =
     (case product_id l of
        None \<Rightarrow> False
      | Some i \<Rightarrow> int4_ok i \<and> price_of ps i \<noteq> None \<and>
          (case quantity l of None \<Rightarrow> False | Some q \<Rightarrow> int4_ok q))"

text \<open>
  A request the store accepts: the constraint on \<^verbatim>\<open>orders.user_id\<close> holds, the items are
  there, every line is valid and the handler's total fits \<^verbatim>\<open>DECIMAL(10, 2)\<close>.
\<close>

definition order_accepted :: "world \<Rightarrow> order_request \<Rightarrow> bool" where
  "order_accepted w req =
     (user_id_ok (schema w) (db w) (user_id req) \<and>
      (case items req of
         None \<Rightarrow> False
       | Some ls \<Rightarrow> list_all (valid_line (products (db w))) ls \<and>
           pg_numeric_10_2 (js_total (products (db w)) ls) \<noteq> None))"

text \<open>
  The keys of the rows in \<^verbatim>\<open>orders\<close> and \<^verbatim>\<open>order_items\<close> were drawn from the sequences:
  none of them is beyond the last value of its sequence.
\<close>

definition serial_keys_ok :: "world \<Rightarrow> bool" where
  "serial_keys_ok w =
     (list_all (\<lambda>r. o_id r \<le> orders_id_seq w) (orders (db w)) \<and>
      list_all (\<lambda>r. oi_id r \<le> order_items_id_seq w) (order_items (db w)))"

definition items_trace :: "line list \<Rightarrow> event list" where
  "items_trace ls = concat (map (\<lambda>l. [PgSelectPrice (product_id l), PgInsertOrderItem]) ls)"

section \<open>The commands of a transaction\<close>

text \<open>
  The statements the order handler sends between \<^verbatim>\<open>BEGIN\<close> and \<^verbatim>\<open>COMMIT\<close>, and what they
  leave alone: the committed tables, the cache, the catalogue. The sequences only advance.
\<close>

fun tx_event :: "event \<Rightarrow> bool" where
  "tx_event PgInsertOrder = True"
| "tx_event (PgSelectPrice _) = True"
| "tx_event PgInsertOrderItem = True"
| "tx_event PgUpdateTotal = True"
| "tx_event _ = False"

definition tx_frame :: "world \<Rightarrow> world \<Rightarrow> bool" where
  "tx_frame w w' =
     (db w' = db w \<and> redis w' = redis w \<and> redis_faults w' = redis_faults w \<and>
      schema w' = schema w \<and> now w' = now w \<and> tx w' \<noteq> None \<and>
      products (cur w') = products (cur w) \<and>
      orders_id_seq w \<le> orders_id_seq w' \<and> order_items_id_seq w \<le> order_items_id_seq w' \<and>
      (\<exists>es. trace w' = trace w @ es \<and> list_all tx_event es))"

definition committed_world :: "world \<Rightarrow> order_request \<Rightarrow> line list \<Rightarrow> world" where
  "committed_world w req ls =
     w\<lparr>db := spec_tables w req ls, tx := None,
       orders_id_seq := orders_id_seq w + 1,
       order_items_id_seq := order_items_id_seq w + int (length ls),
       trace := trace w @ [PgBegin, PgInsertOrder] @ items_trace ls @ [PgUpdateTotal, PgCommit]\<rparr>"

text \<open>A part of the request is missing: the items, or the product or the quantity of a line,
  or the user where the column is \<^verbatim>\<open>NOT NULL\<close>.\<close>

definition missing_field :: "world \<Rightarrow> order_request \<Rightarrow> bool" where
  "missing_field w req =
     ((user_id req = None \<and> schema w = InitDB) \<or>
      (case items req of
         None \<Rightarrow> True
       | Some ls \<Rightarrow> list_ex (\<lambda>l. product_id l = None \<or> quantity l = None) ls))"

text \<open>No price of the catalogue and no quantity of the request is negative.\<close>

definition nonneg_prices :: "tables \<Rightarrow> bool" where
  "nonneg_prices t = list_all (\<lambda>p. 0 \<le> p_price p) (products t)"

definition nonneg_quantities :: "order_request \<Rightarrow> bool" where
  "nonneg_quantities req =
     (case items req of
        None \<Rightarrow> True
      | Some ls \<Rightarrow> list_all (\<lambda>l. case quantity l of None \<Rightarrow> True | Some q \<Rightarrow> 0 \<le> q) ls)"

section \<open>Example data\<close>

text \<open>
  A small catalogue: two products in stock and one sold out. \<open>w_init\<close> is the service after
  \<^verbatim>\<open>initDB\<close> on an empty database, with an empty cache; in \<open>w_cache_down\<close> the next cache
  command is rejected.
\<close>

definition mouse :: product where
  "mouse = \<lparr>p_id = 1, p_name = ''Mouse'', p_description = Some ''Wireless ergonomic mouse'',
     p_price = 2999, p_stock = 50, p_image_url = Some ''/mouse.jpg'', p_created_at = 100\<rparr>"

definition laptop :: product where
  "laptop = \<lparr>p_id = 2, p_name = ''Laptop'', p_description = None,
     p_price = 99999, p_stock = 10, p_image_url = Some ''/laptop.jpg'', p_created_at = 200\<rparr>"

definition monitor :: product where
  "monitor = \<lparr>p_id = 3, p_name = ''Monitor'', p_description = None,
     p_price = 39999, p_stock = 0, p_image_url = None, p_created_at = 300\<rparr>"

definition shop :: tables where
  "shop = \<lparr>products = [mouse, laptop, monitor], users = [], orders = [], order_items = []\<rparr>"

definition w_init :: world where
  "w_init = \<lparr>schema = InitDB, db = shop, tx = None, orders_id_seq = 0, order_items_id_seq = 0,
     redis = (\<lambda>k. None), redis_faults = [], now = 1000, trace = []\<rparr>"

definition w_cache_down :: world where
  "w_cache_down = w_init\<lparr>redis_faults := [True]\<rparr>"

definition req_three_mice :: order_request where
  "req_three_mice =
     \<lparr>user_id = Some 7, items = Some [\<lparr>product_id = Some 1, quantity = Some 3\<rparr>]\<rparr>"

text \<open>
  The requests of the examples, and further states: the cache accepts the \<^verbatim>\<open>get\<close> and rejects
  the \<^verbatim>\<open>setEx\<close>; the cache holds an entry that expired at time 900; the cache was filled by a
  read (\<open>w_cached\<close>); then the catalogue changed and 299 seconds passed (\<open>w_later\<close>).
\<close>

definition req_unknown_product :: order_request where
  "req_unknown_product =
     \<lparr>user_id = Some 7, items = Some [\<lparr>product_id = Some 999, quantity = Some 1\<rparr>]\<rparr>"

definition req_mouse_and_laptop :: order_request where
  "req_mouse_and_laptop =
     \<lparr>user_id = Some 7, items = Some [\<lparr>product_id = Some 1, quantity = Some 2\<rparr>,
                                      \<lparr>product_id = Some 2, quantity = Some 1\<rparr>]\<rparr>"

definition req_no_items :: order_request where
  "req_no_items = \<lparr>user_id = Some 7, items = None\<rparr>"

definition req_zero_quantity :: order_request where
  "req_zero_quantity =
     \<lparr>user_id = Some 7, items = Some [\<lparr>product_id = Some 1, quantity = Some 0\<rparr>]\<rparr>"

definition req_negative_quantity :: order_request where
  "req_negative_quantity =
     \<lparr>user_id = Some 7, items = Some [\<lparr>product_id = Some 1, quantity = Some (- 2)\<rparr>]\<rparr>"

definition req_empty :: order_request where
  "req_empty = \<lparr>user_id = Some 7, items = Some []\<rparr>"

definition w_set_fails :: world where
  "w_set_fails = w_init\<lparr>redis_faults := [False, True]\<rparr>"

definition w_expired_set_fails :: world where
  "w_expired_set_fails =
     w_init\<lparr>redis := (\<lambda>k. None)(''products'' \<mapsto> (JSON_text [mouse], 900)),
            redis_faults := [False, True]\<rparr>"

definition w_cached :: world where
  "w_cached = snd (get_products w_init)"

definition shop_changed :: tables where
  "shop_changed = shop\<lparr>products := [mouse\<lparr>p_price := 3499\<rparr>, laptop\<lparr>p_stock := 0\<rparr>, monitor]\<rparr>"

definition w_later :: world where
  "w_later = w_cached\<lparr>db := shop_changed, now := 1299\<rparr>"

text \<open>
  Orders on which the doubles show: seven mice, and two large lines that nearly cancel, on
  a catalogue with one product at 99999.99. In \<open>w_cached_cache_down\<close> the cache holds the
  listing and rejects the next command.
\<close>

definition req_seven_mice :: order_request where
  "req_seven_mice =
     \<lparr>user_id = Some 7, items = Some [\<lparr>product_id = Some 1, quantity = Some 7\<rparr>]\<rparr>"

definition server :: product where
  "server = \<lparr>p_id = 4, p_name = ''Server'', p_description = None,
     p_price = 9999999, p_stock = 5, p_image_url = None, p_created_at = 400\<rparr>"

definition w_dear :: world where
  "w_dear = w_init\<lparr>db := shop\<lparr>products := [server]\<rparr>\<rparr>"

definition req_cancel :: order_request where
  "req_cancel =
     \<lparr>user_id = Some 7,
      items = Some [\<lparr>product_id = Some 4, quantity = Some 2000000000\<rparr>,
                    \<lparr>product_id = Some 4, quantity = Some (- 1999999999)\<rparr>]\<rparr>"

definition w_cached_cache_down :: world where
  "w_cached_cache_down = w_cached\<lparr>redis_faults := [True]\<rparr>"

section \<open>Unfolding the model\<close>

lemmas model_defs = create_order_def create_order_try_def pool_connect_def pg_begin_def
  pg_insert_order_def pg_select_price_def pg_insert_order_item_def pg_update_total_def
  pg_commit_def pg_rollback_def redis_del_def redis_get_def redis_setEx_def redis_step_def
  redis_lookup_def logged_def cur_def put_def user_id_ok_def int4_ok_def
  get_products_def pg_select_products_def select_products_def order_by_created_at_desc_def
  Let_def

lemmas spec_defs = order_accepted_def serial_keys_ok_def valid_line_def price_of_def
  spec_total_def line_amount_def js_line_def js_sum_def js_total_def stored_total_def
  spec_order_row_def spec_tables_def items_trace_def
  missing_field_def nonneg_prices_def nonneg_quantities_def

lemmas data_defs = mouse_def laptop_def monitor_def shop_def w_init_def w_cache_down_def
  req_three_mice_def

lemmas more_data_defs = req_unknown_product_def req_mouse_and_laptop_def req_no_items_def
  req_zero_quantity_def req_negative_quantity_def req_empty_def w_set_fails_def
  w_expired_set_fails_def w_cached_def shop_changed_def w_later_def req_seven_mice_def
  server_def w_dear_def req_cancel_def w_cached_cache_down_def

section \<open>The item loop and the transaction\<close>

text \<open>Every statement sent inside the transaction keeps the frame.\<close>

lemma tx_frame_refl: "tx w \<noteq> None \<Longrightarrow> tx_frame w w"
  by (simp add: tx_frame_def)

lemma tx_frame_trans: "tx_frame w w1 \<Longrightarrow> tx_frame w1 w2 \<Longrightarrow> tx_frame w w2"
  by (auto simp: tx_frame_def)

lemma pg_insert_order_frame:
  "tx w \<noteq> None \<Longrightarrow> pg_insert_order uid st tot w = (r, w') \<Longrightarrow> tx_frame w w'"
  by (auto simp: pg_insert_order_def tx_frame_def Let_def logged_def put_def cur_def
      split: if_splits option.splits)

lemma pg_select_price_frame:
  "tx w \<noteq> None \<Longrightarrow> pg_select_price pid w = (r, w') \<Longrightarrow> tx_frame w w'"
  by (auto simp: pg_select_price_def tx_frame_def Let_def logged_def put_def cur_def
      split: if_splits option.splits)

lemma pg_insert_order_item_frame:
  "tx w \<noteq> None \<Longrightarrow> pg_insert_order_item oid pid qty pr w = (r, w') \<Longrightarrow> tx_frame w w'"
  by (auto simp: pg_insert_order_item_def tx_frame_def Let_def logged_def put_def cur_def
      split: if_splits option.splits)

lemma pg_update_total_frame:
  "tx w \<noteq> None \<Longrightarrow> pg_update_total tot oid w = (r, w') \<Longrightarrow> tx_frame w w'"
  by (auto simp: pg_update_total_def tx_frame_def Let_def logged_def put_def cur_def
      split: if_splits option.splits)

lemma add_items_frame:
  "tx w \<noteq> None \<Longrightarrow> add_items oid ls tot w = (r, w') \<Longrightarrow> tx_frame w w'"
proof (induction ls arbitrary: tot w)
  case Nil
  then show ?case by (simp add: tx_frame_refl)
next
  case (Cons l ls)
  obtain r1 w1 where sel: "pg_select_price (product_id l) w = (r1, w1)"
    by (cases "pg_select_price (product_id l) w")
  have f1: "tx_frame w w1" using pg_select_price_frame[OF Cons.prems(1) sel] .
  then have tx1: "tx w1 \<noteq> None" by (simp add: tx_frame_def)
  show ?case
  proof (cases r1)
    case (Inl e)
    then show ?thesis using Cons.prems(2) sel f1 by simp
  next
    case r1: (Inr prices)
    show ?thesis
    proof (cases prices)
      case Nil
      then show ?thesis using Cons.prems(2) sel f1 r1 by simp
    next
      case prices: (Cons pr rest)
      obtain r2 w2
        where ins: "pg_insert_order_item oid (product_id l) (quantity l) pr w1 = (r2, w2)"
        by (cases "pg_insert_order_item oid (product_id l) (quantity l) pr w1")
      have f2: "tx_frame w1 w2" using pg_insert_order_item_frame[OF tx1 ins] .
      then have tx2: "tx w2 \<noteq> None" by (simp add: tx_frame_def)
      have f12: "tx_frame w w2" using tx_frame_trans[OF f1 f2] .
      show ?thesis
      proof (cases r2)
        case (Inl e)
        then show ?thesis using Cons.prems(2) sel r1 prices ins f12 by simp
      next
        case (Inr u)
        then have "add_items oid ls
            (case quantity l of
               None \<Rightarrow> tot
             | Some q \<Rightarrow> js_plus tot (js_times (js_number pr) (js_integer q))) w2 = (r, w')"
          using Cons.prems(2) sel r1 prices ins by simp
        from Cons.IH[OF tx2 this] show ?thesis using tx_frame_trans[OF f12] by blast
      qed
    qed
  qed
qed

text \<open>
  The loop returns a total exactly when every line is valid, and the total is then the
  specification's sum.
\<close>

lemma select_price_rows:
  "map p_price (filter (\<lambda>p. p_id p = i) ps) =
     (case price_of ps i of
        None \<Rightarrow> []
      | Some pr \<Rightarrow> pr # tl (map p_price (filter (\<lambda>p. p_id p = i) ps)))"
  by (simp add: price_of_def split: list.splits)

lemma js_sum_Cons: "js_sum t ps (l # ls) = js_sum (js_plus t (js_line ps l)) ps ls"
  by (simp add: js_sum_def)

lemma add_items_Inr:
  "tx w \<noteq> None \<Longrightarrow> add_items oid ls tot w = (Inr r, w') \<Longrightarrow>
     list_all (valid_line (products (cur w))) ls \<and> r = js_sum tot (products (cur w)) ls"
proof (induction ls arbitrary: tot w)
  case Nil
  then show ?case by (simp add: js_sum_def)
next
  case (Cons l ls)
  obtain r1 w1 where sel: "pg_select_price (product_id l) w = (r1, w1)"
    by (cases "pg_select_price (product_id l) w")
  have f1: "tx_frame w w1" using pg_select_price_frame[OF Cons.prems(1) sel] .
  then have tx1: "tx w1 \<noteq> None" by (simp add: tx_frame_def)
  from Cons.prems(2) sel obtain pr rest where r1: "r1 = Inr (pr # rest)"
    by (cases r1; cases "projr r1") auto
  obtain r2 w2 where ins: "pg_insert_order_item oid (product_id l) (quantity l) pr w1 = (r2, w2)"
    by (cases "pg_insert_order_item oid (product_id l) (quantity l) pr w1")
  have f2: "tx_frame w1 w2" using pg_insert_order_item_frame[OF tx1 ins] .
  then have tx2: "tx w2 \<noteq> None" by (simp add: tx_frame_def)
  have ps2: "products (cur w2) = products (cur w)" using f1 f2 by (simp add: tx_frame_def)
  from Cons.prems(2) sel r1 ins obtain u where r2: "r2 = Inr u"
    by (cases r2) auto
  have rec: "add_items oid ls
      (case quantity l of
         None \<Rightarrow> tot
       | Some q \<Rightarrow> js_plus tot (js_times (js_number pr) (js_integer q))) w2 = (Inr r, w')"
    using Cons.prems(2) sel r1 ins r2 by simp
  from sel r1 obtain i where i: "product_id l = Some i" "int4_ok i"
    "price_of (products (cur w)) i = Some pr"
    by (auto simp: pg_select_price_def Let_def price_of_def split: option.splits if_splits)
  from ins r2 obtain q where q: "quantity l = Some q" "int4_ok q"
    by (auto simp: pg_insert_order_item_def Let_def split: option.splits if_splits)
  have "valid_line (products (cur w)) l" using i q by (simp add: valid_line_def)
  moreover have "js_line (products (cur w)) l = js_times (js_number pr) (js_integer q)"
    using i q by (simp add: js_line_def)
  ultimately show ?case
    using Cons.IH[OF tx2 rec] q ps2 by (simp add: js_sum_Cons)
qed

text \<open>On valid lines the loop inserts the rows the specification expects, one per line.\<close>

lemma add_items_valid:
  assumes "tx w = Some t" and "list_all (valid_line (products t)) ls"
    and "list_all (\<lambda>r. oi_id r \<le> order_items_id_seq w) (order_items t)"
  shows "add_items oid ls tot w =
    (Inr (js_sum tot (products t) ls),
     w\<lparr>tx := Some (t\<lparr>order_items := order_items t @
            spec_item_rows (products t) oid (order_items_id_seq w) ls\<rparr>),
       order_items_id_seq := order_items_id_seq w + int (length ls),
       trace := trace w @ items_trace ls\<rparr>)"
  using assms
proof (induction ls arbitrary: tot w t)
  case Nil
  then show ?case by (simp add: js_sum_def items_trace_def)
next
  case (Cons l ls)
  from Cons.prems(2) obtain i q pr where l: "product_id l = Some i" "quantity l = Some q"
    "int4_ok i" "int4_ok q" "price_of (products t) i = Some pr"
    by (auto simp: valid_line_def split: option.splits)
  let ?row = "\<lparr>oi_id = order_items_id_seq w + 1, oi_order_id = oid, oi_product_id = Some i,
      oi_quantity = q, oi_price = pr\<rparr>"
  let ?t2 = "t\<lparr>order_items := order_items t @ [?row]\<rparr>"
  let ?w2 = "w\<lparr>tx := Some ?t2,
       order_items_id_seq := order_items_id_seq w + 1,
       trace := trace w @ [PgSelectPrice (Some i), PgInsertOrderItem]\<rparr>"
  have fresh: "order_items_id_seq w + 1 \<notin> oi_id ` set (order_items t)"
    using Cons.prems(3) by (auto simp: list_all_iff)
  have sel: "pg_select_price (Some i) w =
      (Inr (pr # tl (map p_price (filter (\<lambda>p. p_id p = i) (products t)))),
       logged (PgSelectPrice (Some i)) w)"
    using l Cons.prems(1) select_price_rows[of i "products t"]
    by (simp add: pg_select_price_def cur_def Let_def)
  have ins: "pg_insert_order_item oid (Some i) (Some q) pr (logged (PgSelectPrice (Some i)) w) =
      (Inr (), ?w2)"
    using l Cons.prems(1) fresh
    by (simp add: pg_insert_order_item_def cur_def put_def logged_def Let_def)
  let ?tot2 = "js_plus tot (js_times (js_number pr) (js_integer q))"
  have step: "add_items oid (l # ls) tot w = add_items oid ls ?tot2 ?w2"
    using l by (simp add: sel ins)
  have tx2: "tx ?w2 = Some ?t2" by simp
  have val2: "list_all (valid_line (products ?t2)) ls" using Cons.prems(2) by simp
  have keys2: "list_all (\<lambda>r. oi_id r \<le> order_items_id_seq ?w2) (order_items ?t2)"
    using Cons.prems(3) by (auto simp: list_all_iff)
  show ?case
    unfolding step
    using l Cons.IH[OF tx2 val2 keys2, of ?tot2]
    by (simp add: js_sum_Cons js_line_def items_trace_def)
qed

text \<open>An accepted request runs up to the \<^verbatim>\<open>COMMIT\<close>; what follows depends on the cache alone.\<close>

lemma create_order_try_commits:
  assumes keys: "serial_keys_ok w" and acc: "order_accepted w req" and ls: "items req = Some ls"
  shows "create_order_try req (pool_connect w) =
    (case redis_del ''products'' (committed_world w req ls) of
       (Inl e, w6) \<Rightarrow> (Inl e, w6)
     | (Inr u, w6) \<Rightarrow>
         (Inr \<lparr>status = 201,
               body = OrderCreated (orders_id_seq w + 1) (js_total (products (db w)) ls)\<rparr>, w6))"
proof -
  let ?oid = "orders_id_seq w + 1"
  let ?tot = "js_total (products (db w)) ls"
  let ?row0 = "\<lparr>o_id = ?oid, o_user_id = user_id req, o_status = ''pending'', o_total = 0,
      o_created_at = now w\<rparr>"
  let ?t1 = "(db w)\<lparr>orders := orders (db w) @ [?row0]\<rparr>"
  let ?w2 = "w\<lparr>tx := Some ?t1, orders_id_seq := ?oid, trace := trace w @ [PgBegin, PgInsertOrder]\<rparr>"
  from acc ls have user: "user_id_ok (schema w) (db w) (user_id req)"
    and valid: "list_all (valid_line (products (db w))) ls"
    and dec: "pg_numeric_10_2 ?tot = Some (stored_total (products (db w)) ls)"
    by (auto simp: order_accepted_def stored_total_def)
  from user have int4: "(case user_id req of None \<Rightarrow> True | Some u \<Rightarrow> int4_ok u)"
    by (simp add: user_id_ok_def split: option.splits)
  from keys have fresh': "\<forall>r\<in>set (orders (db w)). o_id r \<noteq> ?oid"
    by (auto simp: serial_keys_ok_def list_all_iff)
  then have fresh: "?oid \<notin> o_id ` set (orders (db w))"
    by auto
  have ins: "pg_insert_order (user_id req) ''pending'' 0 (pg_begin (pool_connect w)) = (Inr ?oid, ?w2)"
    using user int4 fresh
    by (simp add: pg_insert_order_def pg_begin_def pool_connect_def logged_def cur_def put_def Let_def)
  let ?t3 = "?t1\<lparr>order_items := order_items ?t1 @
      spec_item_rows (products ?t1) ?oid (order_items_id_seq ?w2) ls\<rparr>"
  let ?w3 = "?w2\<lparr>tx := Some ?t3,
       order_items_id_seq := order_items_id_seq ?w2 + int (length ls),
       trace := trace ?w2 @ items_trace ls\<rparr>"
  have tx2: "tx ?w2 = Some ?t1" by simp
  have val2: "list_all (valid_line (products ?t1)) ls" using valid by simp
  have keys2: "list_all (\<lambda>r. oi_id r \<le> order_items_id_seq ?w2) (order_items ?t1)"
    using keys by (simp add: serial_keys_ok_def)
  have loop: "add_items ?oid ls 0 ?w2 = (Inr ?tot, ?w3)"
    using add_items_valid[OF tx2 val2 keys2, of ?oid 0] by (simp add: js_total_def)
  have old: "map (\<lambda>r. if o_id r = ?oid
                       then r\<lparr>o_total := stored_total (products (db w)) ls\<rparr> else r)
               (orders (db w)) = orders (db w)"
    using fresh' by (intro map_idI) simp
  have upd: "pg_update_total ?tot ?oid ?w3 = (Inr (), ?w3\<lparr>tx := Some (spec_tables w req ls),
      trace := trace ?w3 @ [PgUpdateTotal]\<rparr>)"
    using dec old
    by (simp add: pg_update_total_def logged_def cur_def put_def Let_def spec_tables_def
        spec_order_row_def)
  have com: "pg_commit (?w3\<lparr>tx := Some (spec_tables w req ls),
      trace := trace ?w3 @ [PgUpdateTotal]\<rparr>) = committed_world w req ls"
    by (simp add: pg_commit_def logged_def committed_world_def)
  show ?thesis
    unfolding create_order_try_def
    by (simp only: ins ls loop upd com prod.case sum.case option.case)
qed

text \<open>
  The two ways through the \<^verbatim>\<open>try\<close> block: an exception before the \<^verbatim>\<open>COMMIT\<close>, inside the
  frame of the transaction, or a commit of an accepted request followed by the \<^verbatim>\<open>del\<close>.
\<close>

lemma pg_begin_pool_connect:
  "pg_begin (pool_connect w) = w\<lparr>tx := Some (db w), trace := trace w @ [PgBegin]\<rparr>"
  by (simp add: pg_begin_def pool_connect_def logged_def)

lemma pg_insert_order_Inr:
  "pg_insert_order uid st tot w = (Inr oid, w') \<Longrightarrow> user_id_ok (schema w) (cur w) uid"
  by (auto simp: pg_insert_order_def Let_def split: if_splits)

lemma pg_update_total_Inr:
  "pg_update_total tot oid w = (Inr u, w') \<Longrightarrow> pg_numeric_10_2 tot \<noteq> None"
  by (auto simp: pg_update_total_def Let_def split: option.splits)

lemma create_order_try_cases:
  fixes req w
  defines "w0 \<equiv> pg_begin (pool_connect w)"
  shows "(\<exists>e w'. create_order_try req (pool_connect w) = (Inl e, w') \<and> tx_frame w0 w') \<or>
    (order_accepted w req \<and>
     (\<exists>oid tot w4. tx_frame w0 w4 \<and>
        create_order_try req (pool_connect w) =
          (case redis_del ''products'' (pg_commit w4) of
             (Inl e, w6) \<Rightarrow> (Inl e, w6)
           | (Inr u, w6) \<Rightarrow> (Inr \<lparr>status = 201, body = OrderCreated oid tot\<rparr>, w6))))"
proof -
  have tx0: "tx w0 \<noteq> None" and cur0: "cur w0 = db w" and sch0: "schema w0 = schema w"
    by (simp_all add: w0_def pg_begin_pool_connect cur_def)
  obtain r1 w2 where ins: "pg_insert_order (user_id req) ''pending'' 0 w0 = (r1, w2)"
    by (cases "pg_insert_order (user_id req) ''pending'' 0 w0")
  have f2: "tx_frame w0 w2" using pg_insert_order_frame[OF tx0 ins] .
  then have tx2: "tx w2 \<noteq> None" and ps2: "products (cur w2) = products (db w)"
    using cur0 by (simp_all add: tx_frame_def)
  show ?thesis
  proof (cases r1)
    case (Inl e)
    then show ?thesis using ins f2 by (simp add: create_order_try_def w0_def)
  next
    case (Inr oid)
    have user: "user_id_ok (schema w) (db w) (user_id req)"
      using pg_insert_order_Inr[of "user_id req" _ _ w0 oid w2] ins Inr sch0 cur0 by simp
    show ?thesis
    proof (cases "items req")
      case None
      then show ?thesis using ins Inr f2 by (simp add: create_order_try_def w0_def)
    next
      case (Some ls)
      obtain r3 w3 where loop: "add_items oid ls 0 w2 = (r3, w3)"
        by (cases "add_items oid ls 0 w2")
      have f3: "tx_frame w0 w3" using tx_frame_trans[OF f2 add_items_frame[OF tx2 loop]] .
      then have tx3: "tx w3 \<noteq> None" by (simp add: tx_frame_def)
      show ?thesis
      proof (cases r3)
        case (Inl e)
        then show ?thesis using ins \<open>r1 = Inr oid\<close> Some loop f3
          by (simp add: create_order_try_def w0_def)
      next
        case r3: (Inr tot)
        from add_items_Inr[OF tx2, of oid ls 0 tot w3] loop r3 ps2
        have valid: "list_all (valid_line (products (db w))) ls"
          and tot: "tot = js_total (products (db w)) ls" by (simp_all add: js_total_def)
        obtain r4 w4 where upd: "pg_update_total tot oid w3 = (r4, w4)"
          by (cases "pg_update_total tot oid w3")
        have f4: "tx_frame w0 w4" using tx_frame_trans[OF f3 pg_update_total_frame[OF tx3 upd]] .
        show ?thesis
        proof (cases r4)
          case (Inl e)
          then show ?thesis using ins \<open>r1 = Inr oid\<close> Some loop r3 upd f4
            by (simp add: create_order_try_def w0_def)
        next
          case r4: (Inr u)
          have "pg_numeric_10_2 tot \<noteq> None" using pg_update_total_Inr upd r4 by blast
          then have "order_accepted w req"
            using user valid tot Some by (simp add: order_accepted_def)
          moreover have "create_order_try req (pool_connect w) =
              (case redis_del ''products'' (pg_commit w4) of
                 (Inl e, w6) \<Rightarrow> (Inl e, w6)
               | (Inr u, w6) \<Rightarrow> (Inr \<lparr>status = 201, body = OrderCreated oid tot\<rparr>, w6))"
            using ins \<open>r1 = Inr oid\<close> Some loop r3 upd r4
            by (simp add: create_order_try_def w0_def)
          ultimately show ?thesis using f4 by blast
        qed
      qed
    qed
  qed
qed

text \<open>A request the store does not accept changes neither the tables nor the cache.\<close>

lemma create_order_rejected:
  assumes "\<not> order_accepted w req"
  shows "fst (create_order req w) = \<lparr>status = 500, body = Error ''Failed to create order''\<rparr>"
    and "db (snd (create_order req w)) = db w"
    and "redis (snd (create_order req w)) = redis w"
    and "redis_faults (snd (create_order req w)) = redis_faults w"
    and "tx (snd (create_order req w)) = None"
    and "\<exists>es. trace (snd (create_order req w)) = trace w @ [PgBegin] @ es @ [PgRollback] \<and>
           list_all tx_event es"
proof -
  from create_order_try_cases[of req w] assms obtain e w'
    where tr: "create_order_try req (pool_connect w) = (Inl e, w')"
      and fr: "tx_frame (pg_begin (pool_connect w)) w'"
    by blast
  have co: "create_order req w =
      (\<lparr>status = 500, body = Error ''Failed to create order''\<rparr>, pg_rollback w')"
    by (simp add: create_order_def tr)
  show "fst (create_order req w) = \<lparr>status = 500, body = Error ''Failed to create order''\<rparr>"
    by (simp add: co)
  show "db (snd (create_order req w)) = db w"
    using fr by (simp add: co pg_rollback_def logged_def tx_frame_def pg_begin_pool_connect)
  show "redis (snd (create_order req w)) = redis w"
    using fr by (simp add: co pg_rollback_def logged_def tx_frame_def pg_begin_pool_connect)
  show "redis_faults (snd (create_order req w)) = redis_faults w"
    using fr by (simp add: co pg_rollback_def logged_def tx_frame_def pg_begin_pool_connect)
  show "tx (snd (create_order req w)) = None"
    by (simp add: co pg_rollback_def)
  show "\<exists>es. trace (snd (create_order req w)) = trace w @ [PgBegin] @ es @ [PgRollback] \<and>
           list_all tx_event es"
    using fr by (auto simp: co pg_rollback_def logged_def tx_frame_def pg_begin_pool_connect)
qed


lemma spec_item_rows_quantity:
  "list_all (valid_line ps) ls \<Longrightarrow> r \<in> set (spec_item_rows ps oid s ls) \<Longrightarrow>
     int4_ok (oi_quantity r) \<and>
     (\<exists>l\<in>set ls. quantity l = Some (oi_quantity r) \<and> oi_product_id r = product_id l)"
  by (induction ls arbitrary: s) (auto simp: valid_line_def split: option.splits)

lemma price_of_in_catalogue:
  "price_of ps i = Some pr \<Longrightarrow> \<exists>p\<in>set ps. p_id p = i \<and> p_price p = pr"
proof -
  assume a: "price_of ps i = Some pr"
  then obtain p rest where f: "filter (\<lambda>p. p_id p = i) ps = p # rest" and pr: "pr = p_price p"
    by (auto simp: price_of_def split: list.splits)
  have "p \<in> set (filter (\<lambda>p. p_id p = i) ps)" by (simp add: f)
  then show ?thesis using pr by auto
qed

text \<open>Rounding keeps the sign: a total of products that are not negative is not negative.\<close>

lemma pw_pos: "0 < b \<Longrightarrow> 0 < pw b e"
  by (simp add: pw_def)

lemma round_even_nonneg: "0 \<le> y \<Longrightarrow> 0 \<le> round_even y"
proof -
  assume "0 \<le> y"
  then have "0 \<le> floor y" by simp
  then show ?thesis by (simp add: round_even_def Let_def)
qed

lemma round_53_nonneg: "0 \<le> x \<Longrightarrow> 0 \<le> round_53 x"
proof (cases "x = 0")
  case True
  then show ?thesis by (simp add: round_53_def)
next
  case False
  assume x: "0 \<le> x"
  let ?u = "pw 2 (exponent 2 \<bar>x\<bar> - 52)"
  have u: "0 < ?u" by (simp add: pw_pos)
  then have "0 \<le> x / ?u" using x by simp
  then have "0 \<le> round_even (x / ?u)" by (rule round_even_nonneg)
  then have "0 \<le> (of_int (round_even (x / ?u)) :: rat) * ?u" using u by simp
  then show ?thesis using False by (simp add: round_53_def Let_def)
qed

lemma js_number_nonneg: "0 \<le> c \<Longrightarrow> 0 \<le> js_number c"
  by (simp add: js_number_def round_53_nonneg)

lemma js_integer_nonneg: "0 \<le> q \<Longrightarrow> 0 \<le> js_integer q"
  by (simp add: js_integer_def round_53_nonneg)

lemma js_times_nonneg: "0 \<le> a \<Longrightarrow> 0 \<le> b \<Longrightarrow> 0 \<le> js_times a b"
  by (simp add: js_times_def round_53_nonneg)

lemma js_plus_nonneg: "0 \<le> a \<Longrightarrow> 0 \<le> b \<Longrightarrow> 0 \<le> js_plus a b"
  by (simp add: js_plus_def round_53_nonneg)

lemma candidate_nonneg: "0 < v \<Longrightarrow> candidate v k = Some c \<Longrightarrow> 0 \<le> c"
proof -
  assume v: "0 < v" and c: "candidate v k = Some c"
  let ?scale = "pw 10 (exponent 10 v + 1 - int k)"
  have sc: "0 < ?scale" by (simp add: pw_pos)
  then have "0 \<le> v / ?scale" using v by simp
  then have s: "0 \<le> floor (v / ?scale)" by simp
  then have "0 \<le> (of_int (floor (v / ?scale)) :: rat) * ?scale"
    and "0 \<le> (of_int (floor (v / ?scale) + 1) :: rat) * ?scale"
    using sc by simp_all
  then show ?thesis
    using c by (auto simp: candidate_def Let_def split: if_splits)
qed

lemma shortest_nonneg: "0 < v \<Longrightarrow> 0 \<le> shortest v ks"
  by (induction ks) (auto split: option.splits dest: candidate_nonneg)

lemma js_toString_nonneg: "0 \<le> v \<Longrightarrow> 0 \<le> js_toString v"
  by (simp add: js_toString_def shortest_nonneg)

lemma pg_numeric_10_2_nonneg: "0 \<le> v \<Longrightarrow> pg_numeric_10_2 v = Some c \<Longrightarrow> 0 \<le> c"
proof -
  assume "0 \<le> v" and c: "pg_numeric_10_2 v = Some c"
  then have "0 \<le> js_toString v * 100" by (simp add: js_toString_nonneg)
  then have "0 \<le> round_half_away (js_toString v * 100)"
    by (simp add: round_half_away_def)
  then show ?thesis using c by (auto simp: pg_numeric_10_2_def Let_def split: if_splits)
qed

lemma js_line_nonneg:
  assumes "\<forall>p\<in>set ps. 0 \<le> p_price p" and "\<forall>q. quantity l = Some q \<longrightarrow> 0 \<le> q"
  shows "0 \<le> js_line ps l"
proof (cases "product_id l")
  case None
  then show ?thesis by (simp add: js_line_def)
next
  case (Some i)
  show ?thesis
  proof (cases "quantity l")
    case None
    then show ?thesis using Some by (simp add: js_line_def)
  next
    case q: (Some q)
    show ?thesis
    proof (cases "price_of ps i")
      case None
      then show ?thesis using Some q by (simp add: js_line_def)
    next
      case pr: (Some pr)
      from price_of_in_catalogue[OF pr] assms(1) have "0 \<le> pr" by auto
      moreover have "0 \<le> q" using assms(2) q by simp
      ultimately show ?thesis
        using Some q pr by (simp add: js_line_def js_times_nonneg js_number_nonneg js_integer_nonneg)
    qed
  qed
qed

lemma js_sum_nonneg:
  assumes "\<forall>p\<in>set ps. 0 \<le> p_price p"
    and "\<forall>l\<in>set ls. \<forall>q. quantity l = Some q \<longrightarrow> 0 \<le> q" and "0 \<le> t"
  shows "0 \<le> js_sum t ps ls"
  using assms(2,3)
proof (induction ls arbitrary: t)
  case Nil
  then show ?case by (simp add: js_sum_def)
next
  case (Cons l ls)
  have "0 \<le> js_line ps l" using assms(1) Cons.prems(1) by (intro js_line_nonneg) auto
  then have "0 \<le> js_plus t (js_line ps l)" using Cons.prems(2) by (simp add: js_plus_nonneg)
  then show ?case using Cons.IH[of "js_plus t (js_line ps l)"] Cons.prems(1)
    by (simp add: js_sum_Cons)
qed

lemma stored_total_nonneg:
  assumes "\<forall>p\<in>set ps. 0 \<le> p_price p"
    and "\<forall>l\<in>set ls. \<forall>q. quantity l = Some q \<longrightarrow> 0 \<le> q"
  shows "0 \<le> stored_total ps ls"
proof (cases "pg_numeric_10_2 (js_total ps ls)")
  case None
  then show ?thesis by (simp add: stored_total_def)
next
  case (Some c)
  have "0 \<le> js_total ps ls" using js_sum_nonneg[OF assms, of 0] by (simp add: js_total_def)
  then have "0 \<le> c" using Some by (rule pg_numeric_10_2_nonneg)
  then show ?thesis using Some by (simp add: stored_total_def)
qed

lemma missing_field_rejected: "missing_field w req \<Longrightarrow> \<not> order_accepted w req"
  by (fastforce simp: missing_field_def order_accepted_def user_id_ok_def valid_line_def
      list_all_iff list_ex_iff split: option.splits)

lemma create_order_accepted_ok:
  assumes "serial_keys_ok w" and "order_accepted w req" and "items req = Some ls"
    and "\<not> next_fault (redis_faults w)"
  shows "create_order req w =
    (\<lparr>status = 201,
      body = OrderCreated (orders_id_seq w + 1) (js_total (products (db w)) ls)\<rparr>,
     (redis_step (RedisDel ''products'') (committed_world w req ls))
       \<lparr>redis := (redis w)(''products'' := None)\<rparr>)"
  using assms(4)
  by (simp add: create_order_def create_order_try_commits[OF assms(1-3)] redis_del_def
      committed_world_def)

lemma create_order_accepted_fault:
  assumes "serial_keys_ok w" and "order_accepted w req" and "items req = Some ls"
    and "next_fault (redis_faults w)"
  shows "create_order req w =
    (\<lparr>status = 500, body = Error ''Failed to create order''\<rparr>,
     pg_rollback (redis_step (RedisDel ''products'') (committed_world w req ls)))"
  using assms(4)
  by (simp add: create_order_def create_order_try_commits[OF assms(1-3)] redis_del_def
      committed_world_def)

lemma create_order_accepted_db:
  assumes "serial_keys_ok w" and "order_accepted w req" and "items req = Some ls"
  shows "db (snd (create_order req w)) = spec_tables w req ls"
proof (cases "next_fault (redis_faults w)")
  case True
  then show ?thesis
    by (simp add: create_order_accepted_fault[OF assms] pg_rollback_def logged_def redis_step_def
        committed_world_def)
next
  case False
  then show ?thesis
    by (simp add: create_order_accepted_ok[OF assms] redis_step_def committed_world_def)
qed

lemma create_order_begins:
  "\<exists>es. trace (snd (create_order req w)) = trace w @ PgBegin # es"
proof -
  have t0: "trace (pg_begin (pool_connect w)) = trace w @ [PgBegin]"
    by (simp add: pg_begin_pool_connect)
  from create_order_try_cases[of req w] show ?thesis
  proof (elim disjE exE conjE)
    fix e w'
    assume "create_order_try req (pool_connect w) = (Inl e, w')"
      and "tx_frame (pg_begin (pool_connect w)) w'"
    then show ?thesis
      using t0 by (auto simp: create_order_def tx_frame_def pg_rollback_def logged_def)
  next
    fix oid tot w4
    assume fr: "tx_frame (pg_begin (pool_connect w)) w4"
      and eq: "create_order_try req (pool_connect w) =
          (case redis_del ''products'' (pg_commit w4) of
             (Inl e, w6) \<Rightarrow> (Inl e, w6)
           | (Inr u, w6) \<Rightarrow> (Inr \<lparr>status = 201, body = OrderCreated oid tot\<rparr>, w6))"
    from fr t0 obtain es where "trace w4 = trace w @ PgBegin # es"
      by (auto simp: tx_frame_def)
    then show ?thesis
      by (auto simp: create_order_def eq redis_del_def redis_step_def pg_commit_def
          pg_rollback_def logged_def split: option.splits)
  qed
qed


text \<open>The handlers keep the keys of the tables within their sequences.\<close>

lemma serial_keys_ok_create_order:
  assumes "serial_keys_ok w"
  shows "serial_keys_ok (snd (create_order req w))"
proof (cases "order_accepted w req")
  case True
  then obtain ls where ls: "items req = Some ls"
    by (auto simp: order_accepted_def split: option.splits)
  have 1: "\<And>r. r \<in> set (spec_item_rows ps oid s ls) \<Longrightarrow> oi_id r \<le> s + int (length ls)" for ps oid s
    by (induction ls arbitrary: s) (auto, force)
  show ?thesis
  proof (cases "next_fault (redis_faults w)")
    case f: True
    then show ?thesis
      using assms 1
      by (auto simp: create_order_accepted_fault[OF assms True ls] pg_rollback_def logged_def
          redis_step_def committed_world_def serial_keys_ok_def spec_tables_def spec_order_row_def
          list_all_iff)
  next
    case f: False
    then show ?thesis
      using assms 1
      by (auto simp: create_order_accepted_ok[OF assms True ls] redis_step_def
          committed_world_def serial_keys_ok_def spec_tables_def spec_order_row_def list_all_iff)
  qed
next
  case False
  from create_order_try_cases[of req w] False obtain e w'
    where tr: "create_order_try req (pool_connect w) = (Inl e, w')"
      and fr: "tx_frame (pg_begin (pool_connect w)) w'"
    by blast
  then show ?thesis
    using assms
    by (auto simp: create_order_def pg_rollback_def logged_def tx_frame_def
        pg_begin_pool_connect serial_keys_ok_def list_all_iff)
qed

text \<open>The listing query: a sorted rearrangement of the rows in stock.\<close>

lemma mset_insert_desc: "mset (insert_desc x ys) = add_mset x (mset ys)"
  by (induction ys) simp_all

lemma set_insert_desc: "set (insert_desc x ys) = insert x (set ys)"
  by (induction ys) auto

lemma sorted_insert_desc:
  "sorted_wrt (\<lambda>a b. p_created_at b \<le> p_created_at a) ys \<Longrightarrow>
   sorted_wrt (\<lambda>a b. p_created_at b \<le> p_created_at a) (insert_desc x ys)"
  by (induction ys) (auto simp: set_insert_desc)

lemma mset_order_by: "mset (order_by_created_at_desc rows) = mset rows"
  by (induction rows) (simp_all add: order_by_created_at_desc_def mset_insert_desc)

lemma sorted_order_by:
  "sorted_wrt (\<lambda>a b. p_created_at b \<le> p_created_at a) (order_by_created_at_desc rows)"
  by (induction rows) (simp_all add: order_by_created_at_desc_def sorted_insert_desc)

section \<open>The product listing\<close>

lemma mset_select_products:
  "mset (select_products t) = mset (filter (\<lambda>p. 0 < p_stock p) (products t))"
  by (simp add: select_products_def mset_order_by)

lemma sorted_select_products:
  "sorted_wrt (\<lambda>a b. p_created_at b \<le> p_created_at a) (select_products t)"
  by (simp add: select_products_def sorted_order_by)

text \<open>A hit and a miss, in terms of the entry, its expiry and the fate of the command.\<close>

lemma redis_get_hit:
  "fst (redis_get k w) = Inr (Some v) \<longleftrightarrow>
     \<not> next_fault (redis_faults w) \<and> (\<exists>expires. redis w k = Some (v, expires) \<and> now w < expires)"
  by (auto simp: redis_get_def redis_lookup_def split: option.splits if_splits)

lemma redis_get_miss:
  "fst (redis_get k w) = Inr None \<longleftrightarrow>
     \<not> next_fault (redis_faults w) \<and>
     (redis w k = None \<or> (\<exists>v expires. redis w k = Some (v, expires) \<and> expires \<le> now w))"
  by (auto simp: redis_get_def redis_lookup_def split: option.splits if_splits)


lemma serial_keys_ok_get_products: "serial_keys_ok w \<Longrightarrow> serial_keys_ok (snd (get_products w))"
  by (auto simp: serial_keys_ok_def get_products_def redis_get_def redis_setEx_def redis_step_def
      pg_select_products_def logged_def split: option.splits)

section \<open>The arithmetic of the examples\<close>

text \<open>
  Three mice at 29.99 make the double of 89.97, and the column keeps 89.97. Seven mice make
  the double that is written 209.92999999999998, one step below the double of 209.93; the
  column rounds it to 209.93. The two lines at 99999.99 that nearly cancel leave 99999.96875,
  which the column rounds to 99999.97, two cents below the exact sum.
\<close>

lemma zero_total: "pg_numeric_10_2 0 = Some 0"
  by code_simp

lemma three_mice: "js_plus 0 (js_times (js_number 2999) (js_integer 3)) = js_number 8997"
  by code_simp

lemma three_mice_stored: "pg_numeric_10_2 (js_number 8997) = Some 8997"
  by code_simp

lemma mice_and_laptop:
  "js_plus (js_plus 0 (js_times (js_number 2999) (js_integer 2)))
     (js_times (js_number 99999) (js_integer 1)) = js_number 105997"
  by code_simp

lemma mice_and_laptop_stored: "pg_numeric_10_2 (js_number 105997) = Some 105997"
  by code_simp

lemma no_mouse: "js_plus 0 (js_times (js_number 2999) (js_integer 0)) = 0"
  by code_simp

lemma minus_two_mice:
  "js_plus 0 (js_times (js_number 2999) (js_integer (- 2))) = js_number (- 5998)"
  by code_simp

lemma minus_two_mice_stored: "pg_numeric_10_2 (js_number (- 5998)) = Some (- 5998)"
  by code_simp

lemma seven_mice:
  "js_plus 0 (js_times (js_number 2999) (js_integer 7)) = 7386255232608501 / 35184372088832"
  by code_simp


lemma seven_mice_stored: "pg_numeric_10_2 (7386255232608501 / 35184372088832) = Some 20993"
  by code_simp

lemma seven_mice_exact: "js_number 20993 = 3693127616304251 / 17592186044416"
  by code_simp

lemma cancel:
  "js_plus (js_plus 0 (js_times (js_number 9999999) (js_integer 2000000000)))
     (js_times (js_number 9999999) (js_integer (- 1999999999))) = 3199999 / 32"
  by code_simp

lemma cancel_stored: "pg_numeric_10_2 (3199999 / 32) = Some 9999997"
  by code_simp

lemmas arith = zero_total three_mice three_mice_stored mice_and_laptop mice_and_laptop_stored
  no_mouse minus_two_mice minus_two_mice_stored seven_mice seven_mice_stored cancel
  cancel_stored

section \<open>The claims\<close>




text \<open>
  C2. An order whose line names a product that does not exist is to be rolled back whole and
  to be answered with a client error. At the request of the specification's scenario
  (product 999) the handler reads \<^verbatim>\<open>product.rows[0].price\<close> of an empty result, the TypeError
  ends in the \<^verbatim>\<open>catch\<close>, the transaction is rolled back and the tables are unchanged, but the
  answer is 500, a server error. \<^verbatim>\<open>GET /api/products/:id\<close> checks \<^verbatim>\<open>rows.length === 0\<close> and
  answers 404 for the same lookup.
\<close>

theorem C2_unknown_product_answers_500:
  "fst (create_order req_unknown_product w_init) =
     \<lparr>status = 500, body = Error ''Failed to create order''\<rparr> \<and>
   db (snd (create_order req_unknown_product w_init)) = db w_init \<and>
   trace (snd (create_order req_unknown_product w_init)) =
     [PgBegin, PgInsertOrder, PgSelectPrice (Some 999), PgRollback]"
  by (simp add: model_defs data_defs more_data_defs)




text \<open>
  C4, as amended. When the cache rejects the \<^verbatim>\<open>get\<close>, or misses and rejects the \<^verbatim>\<open>setEx\<close>, the
  listing is not served: the answer is 500 with \<^verbatim>\<open>Internal server error\<close>, store and cache are
  left as they were, and after a rejected \<^verbatim>\<open>get\<close> the store is not even queried.
\<close>

theorem C4_cache_failure_fails_the_read:
  assumes "next_fault (redis_faults w) \<or>
           (redis_lookup w ''products'' = None \<and> next_fault (drop 1 (redis_faults w)))"
  shows "fst (get_products w) = \<lparr>status = 500, body = Error ''Internal server error''\<rparr> \<and>
         db (snd (get_products w)) = db w \<and>
         redis (snd (get_products w)) = redis w \<and>
         (next_fault (redis_faults w) \<longrightarrow>
            trace (snd (get_products w)) = trace w @ [RedisGet ''products''])"
  using assms
  by (auto simp: get_products_def redis_get_def redis_setEx_def redis_step_def
      pg_select_products_def logged_def)

text \<open>The cache is empty, answers the \<^verbatim>\<open>get\<close> and rejects the \<^verbatim>\<open>setEx\<close>.\<close>

theorem C4_cache_failure_fails_the_read_witness:
  "redis_lookup w_set_fails ''products'' = None \<and>
   next_fault (drop 1 (redis_faults w_set_fails)) \<and>
   fst (get_products w_set_fails) = \<lparr>status = 500, body = Error ''Internal server error''\<rparr> \<and>
   redis (snd (get_products w_set_fails)) ''products'' = None"
proof -
  have h: "redis_lookup w_set_fails ''products'' = None \<and>
           next_fault (drop 1 (redis_faults w_set_fails))"
    by (simp add: redis_lookup_def data_defs more_data_defs)
  from h have "next_fault (redis_faults w_set_fails) \<or>
           (redis_lookup w_set_fails ''products'' = None \<and>
            next_fault (drop 1 (redis_faults w_set_fails)))"
    by blast
  from C4_cache_failure_fails_the_read[OF this] h show ?thesis
    by (simp add: data_defs more_data_defs)
qed

text \<open>
  C4 as stated fails: the cache rejects the \<^verbatim>\<open>get\<close>, the store has two products in stock,
  and the answer is 500 without a query to the store.
\<close>

theorem C4_counterexample:
  "fst (get_products w_cache_down) = \<lparr>status = 500, body = Error ''Internal server error''\<rparr> \<and>
   select_products (db w_cache_down) = [laptop, mouse] \<and>
   trace (snd (get_products w_cache_down)) = [RedisGet ''products'']"
  by (simp add: model_defs data_defs)

text \<open>
  C5, as amended. For every listing read that misses the cache and whose cache write is not
  rejected, the handler queries the store once, for exactly the products with stock above
  zero, newest first, stores the serialized rows under the key \<^verbatim>\<open>products\<close> with a lifetime of
  300 seconds, and answers 200 with these rows.
\<close>

theorem C5_cache_miss_fills_the_cache:
  assumes "fst (redis_get ''products'' w) = Inr None"
    and "\<not> next_fault (drop 1 (redis_faults w))"
  shows "fst (get_products w) = \<lparr>status = 200, body = Products (select_products (db w))\<rparr> \<and>
         mset (select_products (db w)) = mset (filter (\<lambda>p. 0 < p_stock p) (products (db w))) \<and>
         sorted_wrt (\<lambda>a b. p_created_at b \<le> p_created_at a) (select_products (db w)) \<and>
         redis (snd (get_products w)) =
           (redis w)(''products'' \<mapsto> (JSON_stringify (select_products (db w)), now w + 300)) \<and>
         (\<forall>t. redis_lookup ((snd (get_products w))\<lparr>now := t\<rparr>) ''products'' =
                (if t < now w + 300 then Some (JSON_stringify (select_products (db w)))
                 else None)) \<and>
         trace (snd (get_products w)) =
           trace w @ [RedisGet ''products'', PgSelectProducts,
                      RedisSetEx ''products'' 300 (JSON_stringify (select_products (db w)))] \<and>
         db (snd (get_products w)) = db w"
proof -
  from assms(1) have nf: "\<not> next_fault (redis_faults w)"
    and miss: "redis_lookup w ''products'' = None"
    by (auto simp: redis_get_def split: if_splits)
  have run: "get_products w =
      (\<lparr>status = 200, body = Products (select_products (db w))\<rparr>,
       w\<lparr>redis_faults := drop 1 (drop 1 (redis_faults w)),
         trace := trace w @ [RedisGet ''products'', PgSelectProducts,
                    RedisSetEx ''products'' 300 (JSON_stringify (select_products (db w)))],
         redis := (redis w)(''products'' \<mapsto>
                    (JSON_stringify (select_products (db w)), now w + 300))\<rparr>)"
    using nf miss assms(2)
    by (simp add: get_products_def redis_get_def redis_setEx_def redis_step_def
        pg_select_products_def logged_def)
  show ?thesis
    by (simp add: run mset_select_products sorted_select_products redis_lookup_def)
qed

text \<open>The first read of the empty cache: the laptop is newer than the mouse, the monitor is
  sold out.\<close>

theorem C5_cache_miss_fills_the_cache_witness:
  "fst (redis_get ''products'' w_init) = Inr None \<and>
   \<not> next_fault (drop 1 (redis_faults w_init)) \<and>
   fst (get_products w_init) = \<lparr>status = 200, body = Products [laptop, mouse]\<rparr> \<and>
   redis (snd (get_products w_init)) ''products'' = Some (JSON_text [laptop, mouse], 1300) \<and>
   trace (snd (get_products w_init)) =
     [RedisGet ''products'', PgSelectProducts,
      RedisSetEx ''products'' 300 (JSON_text [laptop, mouse])]"
proof -
  have m: "fst (redis_get ''products'' w_init) = Inr None"
    by (simp add: redis_get_def redis_lookup_def data_defs)
  have f: "\<not> next_fault (drop 1 (redis_faults w_init))"
    by (simp add: data_defs)
  have rows: "select_products (db w_init) = [laptop, mouse]"
    by (simp add: model_defs data_defs)
  show ?thesis
    using m f C5_cache_miss_fills_the_cache[OF m f]
    by (simp add: rows) (simp add: data_defs)
qed

text \<open>
  C5 as stated fails: the entry of the cache has expired, so the read misses; the store is
  queried; the cache rejects the \<^verbatim>\<open>setEx\<close> and the answer is 500, not the rows.
\<close>

theorem C5_counterexample:
  "fst (redis_get ''products'' w_expired_set_fails) = Inr None \<and>
   select_products (db w_expired_set_fails) = [laptop, mouse] \<and>
   fst (get_products w_expired_set_fails) =
     \<lparr>status = 500, body = Error ''Internal server error''\<rparr>"
  by (simp add: model_defs data_defs more_data_defs)



text \<open>
  C7, as amended. The handler opens a transaction for every request, malformed or not.
  A request with a missing field (no items, a line without product id or quantity, no user
  id where the column is \<^verbatim>\<open>NOT NULL\<close>) fails inside the transaction, which is rolled back: the
  tables are unchanged and the answer is 500, a server error.
\<close>

theorem C7_no_validation:
  "(\<exists>es. trace (snd (create_order req w)) = trace w @ PgBegin # es) \<and>
   (missing_field w req \<longrightarrow>
      fst (create_order req w) = \<lparr>status = 500, body = Error ''Failed to create order''\<rparr> \<and>
      db (snd (create_order req w)) = db w \<and>
      (\<exists>es. trace (snd (create_order req w)) = trace w @ [PgBegin] @ es @ [PgRollback]))"
proof -
  have "missing_field w req \<longrightarrow>
      fst (create_order req w) = \<lparr>status = 500, body = Error ''Failed to create order''\<rparr> \<and>
      db (snd (create_order req w)) = db w \<and>
      (\<exists>es. trace (snd (create_order req w)) = trace w @ [PgBegin] @ es @ [PgRollback])"
  proof
    assume "missing_field w req"
    then have rej: "\<not> order_accepted w req" by (rule missing_field_rejected)
    from create_order_rejected(6)[OF rej]
    have "\<exists>es. trace (snd (create_order req w)) = trace w @ [PgBegin] @ es @ [PgRollback]"
      by blast
    then show "fst (create_order req w) =
        \<lparr>status = 500, body = Error ''Failed to create order''\<rparr> \<and>
      db (snd (create_order req w)) = db w \<and>
      (\<exists>es. trace (snd (create_order req w)) = trace w @ [PgBegin] @ es @ [PgRollback])"
      using create_order_rejected(1,2)[OF rej] by simp
  qed
  then show ?thesis using create_order_begins[of req w] by blast
qed

text \<open>A request without items: the order row is inserted and rolled back.\<close>

theorem C7_no_validation_witness:
  "missing_field w_init req_no_items \<and>
   fst (create_order req_no_items w_init) =
     \<lparr>status = 500, body = Error ''Failed to create order''\<rparr> \<and>
   db (snd (create_order req_no_items w_init)) = db w_init \<and>
   trace (snd (create_order req_no_items w_init)) = [PgBegin, PgInsertOrder, PgRollback]"
proof -
  have m: "missing_field w_init req_no_items"
    by (simp add: missing_field_def more_data_defs)
  have t: "trace (snd (create_order req_no_items w_init)) = [PgBegin, PgInsertOrder, PgRollback]"
    by (simp add: model_defs data_defs more_data_defs)
  show ?thesis
    using m t C7_no_validation[of req_no_items w_init] by simp
qed

text \<open>
  C7 as stated fails: a line with quantity 0 is not rejected. The transaction is opened
  and committed, the row is persisted and the answer is 201.
\<close>

theorem C7_counterexample:
  "fst (create_order req_zero_quantity w_init) = \<lparr>status = 201, body = OrderCreated 1 0\<rparr> \<and>
   order_items (db (snd (create_order req_zero_quantity w_init))) =
     [\<lparr>oi_id = 1, oi_order_id = 1, oi_product_id = Some 1, oi_quantity = 0, oi_price = 2999\<rparr>] \<and>
   trace (snd (create_order req_zero_quantity w_init)) =
     [PgBegin, PgInsertOrder, PgSelectPrice (Some 1), PgInsertOrderItem, PgUpdateTotal,
      PgCommit, RedisDel ''products'']"
  by (simp add: model_defs data_defs more_data_defs arith)

text \<open>
  C8, as amended. Every OrderItem row the handler persists carries the quantity of its
  line of the request, an \<^verbatim>\<open>INTEGER\<close> that nothing requires to be positive; the total of every
  Order row it persists is not negative when no price of the catalogue and no quantity of
  the request is negative.
\<close>

theorem C8_persisted_amounts:
  assumes "serial_keys_ok w"
  shows "(\<forall>r\<in>set (order_items (db (snd (create_order req w)))) - set (order_items (db w)).
            int4_ok (oi_quantity r) \<and>
            (\<exists>ls. items req = Some ls \<and>
               (\<exists>l\<in>set ls. quantity l = Some (oi_quantity r) \<and>
                  oi_product_id r = product_id l))) \<and>
         (nonneg_prices (db w) \<and> nonneg_quantities req \<longrightarrow>
            (\<forall>r\<in>set (orders (db (snd (create_order req w)))) - set (orders (db w)).
               0 \<le> o_total r))"
proof (cases "order_accepted w req")
  case False
  then show ?thesis by (simp add: create_order_rejected(2))
next
  case True
  then obtain ls where ls: "items req = Some ls"
    and valid: "list_all (valid_line (products (db w))) ls"
    by (auto simp: order_accepted_def split: option.splits)
  have dbeq: "db (snd (create_order req w)) = spec_tables w req ls"
    by (rule create_order_accepted_db[OF assms True ls])
  have items: "\<forall>r\<in>set (order_items (db (snd (create_order req w)))) - set (order_items (db w)).
            int4_ok (oi_quantity r) \<and>
            (\<exists>ls. items req = Some ls \<and>
               (\<exists>l\<in>set ls. quantity l = Some (oi_quantity r) \<and>
                  oi_product_id r = product_id l))"
    using spec_item_rows_quantity[OF valid] ls
    by (auto simp: dbeq spec_tables_def)
  have total: "nonneg_prices (db w) \<and> nonneg_quantities req \<longrightarrow>
            (\<forall>r\<in>set (orders (db (snd (create_order req w)))) - set (orders (db w)).
               0 \<le> o_total r)"
  proof
    assume nn: "nonneg_prices (db w) \<and> nonneg_quantities req"
    then have "\<forall>p\<in>set (products (db w)). 0 \<le> p_price p"
      and "\<forall>l\<in>set ls. \<forall>q. quantity l = Some q \<longrightarrow> 0 \<le> q"
      using ls by (auto simp: nonneg_prices_def nonneg_quantities_def list_all_iff)
    then have "0 \<le> stored_total (products (db w)) ls" by (rule stored_total_nonneg)
    then show "\<forall>r\<in>set (orders (db (snd (create_order req w)))) - set (orders (db w)).
               0 \<le> o_total r"
      by (auto simp: dbeq spec_tables_def spec_order_row_def)
  qed
  show ?thesis using items total by blast
qed

text \<open>Two mice and a laptop: total 1059.97.\<close>

theorem C8_persisted_amounts_witness:
  "serial_keys_ok w_init \<and> nonneg_prices (db w_init) \<and> nonneg_quantities req_mouse_and_laptop \<and>
   orders (db (snd (create_order req_mouse_and_laptop w_init))) =
     [\<lparr>o_id = 1, o_user_id = Some 7, o_status = ''pending'', o_total = 105997,
       o_created_at = 1000\<rparr>] \<and>
   list_all (\<lambda>r. 0 \<le> o_total r) (orders (db (snd (create_order req_mouse_and_laptop w_init)))) \<and>
   list_all (\<lambda>r. int4_ok (oi_quantity r))
     (order_items (db (snd (create_order req_mouse_and_laptop w_init))))"
proof -
  have k: "serial_keys_ok w_init"
    by (simp add: spec_defs data_defs)
  have n: "nonneg_prices (db w_init) \<and> nonneg_quantities req_mouse_and_laptop"
    by (simp add: spec_defs data_defs more_data_defs)
  have o: "orders (db w_init) = [] \<and> order_items (db w_init) = []"
    by (simp add: data_defs)
  have rows: "orders (db (snd (create_order req_mouse_and_laptop w_init))) =
     [\<lparr>o_id = 1, o_user_id = Some 7, o_status = ''pending'', o_total = 105997,
       o_created_at = 1000\<rparr>]"
    by (simp add: model_defs data_defs more_data_defs arith)
  show ?thesis
    using k n o rows C8_persisted_amounts[OF k, of req_mouse_and_laptop]
    by (simp add: list_all_iff)
qed

text \<open>
  C8 as stated fails: a line with quantity \<open>-2\<close> is persisted as it is, with an Order whose
  total is \<open>-59.98\<close>.
\<close>

theorem C8_counterexample:
  "fst (create_order req_negative_quantity w_init) =
     \<lparr>status = 201, body = OrderCreated 1 (js_number (- 5998))\<rparr> \<and>
   orders (db (snd (create_order req_negative_quantity w_init))) =
     [\<lparr>o_id = 1, o_user_id = Some 7, o_status = ''pending'', o_total = - 5998,
       o_created_at = 1000\<rparr>] \<and>
   order_items (db (snd (create_order req_negative_quantity w_init))) =
     [\<lparr>oi_id = 1, oi_order_id = 1, oi_product_id = Some 1, oi_quantity = - 2,
       oi_price = 2999\<rparr>]"
  by (simp add: model_defs data_defs more_data_defs arith)







end
